theory Spec2Isabelle
  imports Main "HOL-Library.AList" "HOL-Library.Sublist" "HOL-Library.Code_Target_Nat"
begin

section \<open>Python values used by \<open>tax_sale_states.py\<close>\<close>

text \<open>
  The exceptions the modelled code can raise. A function that can raise returns
  \<open>py_error + 'a\<close>, with \<open>Inl\<close> for the exception.
\<close>

datatype py_error =
  IndexError | AttributeError | KeyError | ValueError | IllegalCharacterError


subsection \<open>Strings\<close>

text \<open>
  A Python \<open>str\<close> is a \<open>string\<close>; a \<open>char\<close> stands for a code point below 256.
  \<open>isspace\<close> is Python's \<open>str.isspace\<close> on that range: TAB, LF, VT, FF, CR, the four
  separators FS, GS, RS, US, the space, NEL and the no-break space.
\<close>

definition isspace :: "char \<Rightarrow> bool" where
  "isspace c =
     (let n = (of_char c :: nat)
      in (9 \<le> n \<and> n \<le> 13) \<or> (28 \<le> n \<and> n \<le> 32) \<or> n = 133 \<or> n = 160)"

text \<open>\<open>s.lstrip()\<close>, \<open>s.rstrip()\<close> and \<open>s.strip()\<close> with no argument.\<close>

definition lstrip :: "string \<Rightarrow> string" where
  "lstrip s = dropWhile isspace s"

definition rstrip :: "string \<Rightarrow> string" where
  "rstrip s = rev (dropWhile isspace (rev s))"

definition strip :: "string \<Rightarrow> string" where
  "strip s = rstrip (lstrip s)"

text \<open>\<open>s.rstrip(chars)\<close>: drops the trailing characters that occur in \<open>chars\<close>.\<close>

definition rstrip_chars :: "string \<Rightarrow> string \<Rightarrow> string" where
  "rstrip_chars chars s = rev (dropWhile (\<lambda>c. c \<in> set chars) (rev s))"

text \<open>\<open>s.removeprefix(p)\<close>.\<close>

definition removeprefix :: "string \<Rightarrow> string \<Rightarrow> string" where
  "removeprefix p s = (if prefix p s then drop (length p) s else s)"

subsection \<open>Dictionaries\<close>

text \<open>
  A Python \<open>dict\<close> keeps its keys in insertion order, and an assignment to a key it
  already has replaces the value where the key stands. It is an association list
  written through \<open>AList.update\<close>, which does exactly that.
\<close>

type_synonym ('k, 'v) dict = "('k \<times> 'v) list"

definition keys :: "('k, 'v) dict \<Rightarrow> 'k list" where
  "keys d = map fst d"

definition values_of :: "('k, 'v) dict \<Rightarrow> 'v list" where
  "values_of d = map snd d"

definition has_key :: "'k \<Rightarrow> ('k, 'v) dict \<Rightarrow> bool" where
  "has_key k d = (k \<in> set (keys d))"

definition setitem :: "'k \<Rightarrow> 'v \<Rightarrow> ('k, 'v) dict \<Rightarrow> ('k, 'v) dict" where
  "setitem k v d = AList.update k v d"

text \<open>\<open>{**d, **e}\<close>: the items of \<open>e\<close> are assigned into \<open>d\<close> in their order.\<close>

definition unpack_into :: "('k, 'v) dict \<Rightarrow> ('k, 'v) dict \<Rightarrow> ('k, 'v) dict" where
  "unpack_into e d = fold (\<lambda>(k, v). setitem k v) e d"

section \<open>The parsed document\<close>

text \<open>
  A node of the tree BeautifulSoup builds: an element with its name and children, or a
  string with the class the parser gave it. Ordinary text is \<open>Text\<close>; the strings inside
  \<open>script\<close>, \<open>style\<close>, \<open>template\<close>, \<open>rt\<close> and \<open>rp\<close> elements have the classes
  \<open>Script\<close>, \<open>Stylesheet\<close>, \<open>TemplateString\<close>, \<open>RubyTextString\<close> and
  \<open>RubyParenthesisString\<close>; comments, declarations, doctypes and processing
  instructions have their own classes.
\<close>

datatype string_class =
  Text | CData | Comment | Declaration | Doctype | ProcessingInstruction
  | Script | Stylesheet | TemplateString | RubyTextString | RubyParenthesisString

datatype node = Tag string "node list" | NavigableString string_class string

text \<open>
  \<open>get_text()\<close> joins, in document order, the strings below a node whose class is one
  of the node's interesting string types: \<open>Text\<close> and \<open>CData\<close> for an ordinary element,
  and the one class of its own strings for an element that is a string container. So the
  text of a table cell leaves out what stands in a comment, a script or a style element.
\<close>

definition string_containers :: "string \<Rightarrow> string_class option" where
  "string_containers name =
     (if name = ''rt'' then Some RubyTextString
      else if name = ''rp'' then Some RubyParenthesisString
      else if name = ''style'' then Some Stylesheet
      else if name = ''script'' then Some Script
      else if name = ''template'' then Some TemplateString
      else None)"

definition interesting_string_types :: "string \<Rightarrow> string_class list" where
  "interesting_string_types name =
     (case string_containers name of Some c \<Rightarrow> [c] | None \<Rightarrow> [Text, CData])"

fun all_strings :: "string_class list \<Rightarrow> node \<Rightarrow> string list" where
  "all_strings types (NavigableString cls s) = (if cls \<in> set types then [s] else [])"
| "all_strings types (Tag name children) = concat (map (all_strings types) children)"

fun get_text :: "node \<Rightarrow> string" where
  "get_text (NavigableString cls s) = concat (all_strings [Text, CData] (NavigableString cls s))"
| "get_text (Tag name children) =
     concat (all_strings (interesting_string_types name) (Tag name children))"

text \<open>
  \<open>select_tag name\<close> is \<open>node.select(name)\<close> for a type selector: the descendants (the
  node itself excluded) with that element name, in document order.
\<close>

fun descendants :: "node \<Rightarrow> node list" where
  "descendants (NavigableString cls s) = []"
| "descendants (Tag name children) = concat (map (\<lambda>c. c # descendants c) children)"

fun is_tag :: "string \<Rightarrow> node \<Rightarrow> bool" where
  "is_tag name (Tag n children) = (n = name)"
| "is_tag name (NavigableString cls s) = False"

definition select_tag :: "string \<Rightarrow> node \<Rightarrow> node list" where
  "select_tag name n = filter (is_tag name) (descendants n)"

section \<open>\<open>TaxSaleStates\<close>: extraction\<close>

text \<open>
  The schema \<open>key_title\<close> is a dictionary from raw row labels to canonical titles;
  \<open>self.titles\<close> is \<open>key_title.values()\<close>.
\<close>

type_synonym schema = "(string, string) dict"
type_synonym row_dict = "(string, string) dict"

definition titles :: "schema \<Rightarrow> string list" where
  "titles key_title = values_of key_title"

text \<open>
  \<open>add_missing_keys\<close>:
  \<^verbatim>\<open>
  for title in titles:
      if title not in row:
          row[title] = ""
  return row
  \<close>
\<close>

fun add_missing_keys_loop :: "string list \<Rightarrow> row_dict \<Rightarrow> row_dict" where
  "add_missing_keys_loop [] row = row"
| "add_missing_keys_loop (title # ts) row =
     (if \<not> has_key title row then add_missing_keys_loop ts (setitem title '''' row)
      else add_missing_keys_loop ts row)"

definition add_missing_keys :: "schema \<Rightarrow> row_dict \<Rightarrow> row_dict" where
  "add_missing_keys key_title row = add_missing_keys_loop (titles key_title) row"

text \<open>
  \<open>parse_table\<close>: the loop over \<open>table.select("tr")\<close>, with its two \<open>continue\<close>
  branches.
  \<^verbatim>\<open>
  cells = row.select("td")
  if len(cells) < 2: continue
  key = cells[0].get_text().strip().rstrip(":")
  value = cells[1].get_text().strip()
  if len(key) <= 0 and len(value) <= 0: continue
  title = (key_title[key] if key in key_title else key)
  result[title] = value
  \<close>
\<close>

fun parse_rows :: "schema \<Rightarrow> node list \<Rightarrow> row_dict \<Rightarrow> row_dict" where
  "parse_rows key_title [] result = result"
| "parse_rows key_title (row # rows) result =
     (let cells = select_tag ''td'' row in
      if length cells < 2 then parse_rows key_title rows result
      else
        let key = rstrip_chars '':'' (strip (get_text (cells ! 0)));
            val = strip (get_text (cells ! 1))
        in if length key \<le> 0 \<and> length val \<le> 0 then parse_rows key_title rows result
           else
             let title = (case map_of key_title key of Some t \<Rightarrow> t | None \<Rightarrow> key)
             in parse_rows key_title rows (setitem title val result))"

definition parse_table :: "schema \<Rightarrow> node \<Rightarrow> row_dict" where
  "parse_table key_title table = parse_rows key_title (select_tag ''tr'' table) []"

text \<open>
  \<open>itertools.zip_longest(it, it)\<close> over one shared iterator \<open>it\<close>: consecutive
  elements are paired, and a trailing single element is paired with \<open>None\<close>. The first
  component of a pair is never \<open>None\<close>: when the iterator is exhausted at the first
  component it is exhausted at the second too, and the iteration ends.
\<close>

fun zip_longest_shared :: "'a list \<Rightarrow> ('a \<times> 'a option) list" where
  "zip_longest_shared [] = []"
| "zip_longest_shared [x] = [(x, None)]"
| "zip_longest_shared (x # y # zs) = (x, Some y) # zip_longest_shared zs"

text \<open>
  The body of the loop of \<open>parse\<close> for the pair \<open>(table, notes)\<close> at index \<open>i\<close>:
  \<open>state_headings[i]\<close> raises \<open>IndexError\<close> when there is no such heading, and
  \<open>notes.get_text()\<close> raises \<open>AttributeError\<close> when \<open>notes\<close> is \<open>None\<close>.
\<close>

definition parse_item ::
  "schema \<Rightarrow> node list \<Rightarrow> nat \<Rightarrow> node \<Rightarrow> node option \<Rightarrow> py_error + row_dict" where
  "parse_item key_title state_headings i table notes =
     (if length state_headings \<le> i then Inl IndexError
      else
        let state = strip (get_text (state_headings ! i));
            table_items = parse_table key_title table
        in case notes of
             None \<Rightarrow> Inl AttributeError
           | Some n \<Rightarrow>
               let description = lstrip (removeprefix ''NOTES:'' (strip (get_text n)))
               in Inr (add_missing_keys key_title
                    (setitem ''Description'' description
                      (unpack_into table_items (setitem ''State'' state [])))))"

fun parse_loop ::
  "schema \<Rightarrow> node list \<Rightarrow> nat \<Rightarrow> (node \<times> node option) list \<Rightarrow> row_dict list
     \<Rightarrow> py_error + row_dict list" where
  "parse_loop key_title state_headings i [] items = Inr items"
| "parse_loop key_title state_headings i ((table, notes) # rest) items =
     (case parse_item key_title state_headings i table notes of
        Inl e \<Rightarrow> Inl e
      | Inr item \<Rightarrow> parse_loop key_title state_headings (i + 1) rest (items @ [item]))"

text \<open>
  \<open>parse\<close>. The two \<open>soup.select\<close> calls are BeautifulSoup's; their results, the
  heading nodes and the table/notes content nodes of the markup in document order, are
  the arguments \<open>state_headings\<close> and \<open>table_notes\<close>.
\<close>

definition parse :: "schema \<Rightarrow> node list \<Rightarrow> node list \<Rightarrow> py_error + row_dict list" where
  "parse key_title state_headings table_notes =
     parse_loop key_title state_headings 0 (zip_longest_shared table_notes) []"

text \<open>The schema of the two concrete models.\<close>

definition KEY_TITLE :: schema where
  "KEY_TITLE =
     [(''State'', ''State''),
      (''Type'', ''Type''),
      (''Bidding Process'', ''Bidding process''),
      (''Frequency'', ''Frequency''),
      (''Interest Rate / Penalty'', ''Interest rate / penalty''),
      (''Redemption Period'', ''Redemption period''),
      (''Online Auction'', ''Online auction''),
      (''Over the Counter'', ''Over the counter''),
      (''Statute'', ''Statute''),
      (''Notes'', ''Notes''),
      (''Description'', ''Description'')]"

section \<open>\<open>WorkbookController\<close>: the theme patch\<close>

text \<open>
  \<open>s.replace(old, new)\<close>: the occurrences of \<open>old\<close> are found from the left and do
  not overlap. With an empty \<open>old\<close>, Python puts \<open>new\<close> before every character and
  at the end.
\<close>

function replace_from :: "string \<Rightarrow> string \<Rightarrow> string \<Rightarrow> string" where
  "replace_from old new [] = []"
| "replace_from old new (c # cs) =
     (if old \<noteq> [] \<and> prefix old (c # cs)
      then new @ replace_from old new (drop (length old) (c # cs))
      else c # replace_from old new cs)"
  by pat_completeness auto
termination
  by (relation "measure (\<lambda>(old, new, s). length s)") auto

definition replace :: "string \<Rightarrow> string \<Rightarrow> string \<Rightarrow> string" where
  "replace old new s =
     (if old = [] then new @ concat (map (\<lambda>c. c # new) s) else replace_from old new s)"

text \<open>The dictionary \<open>color\<close> of \<open>update_theme\<close>, in its insertion order.\<close>

definition color :: "(string, string) dict" where
  "color =
     [(''1F497D'', ''44546A''),
      (''EEECE1'', ''E7E6E6''),
      (''4F81BD'', ''5B9BD5''),
      (''C0504D'', ''ED7D31''),
      (''9BBB59'', ''A5A5A5''),
      (''8064A2'', ''FFC000''),
      (''4BACC6'', ''4472C4''),
      (''F79646'', ''70AD47''),
      (''0000FF'', ''0563C1''),
      (''800080'', ''954F72'')]"

text \<open>The f-string \<^verbatim>\<open>f"val=\"{h}\""\<close>; \<open>CHR 0x22\<close> is the double quote.\<close>

definition val_attr :: "string \<Rightarrow> string" where
  "val_attr h = ''val='' @ [CHR 0x22] @ h @ [CHR 0x22]"

text \<open>
  The loop of \<open>update_theme\<close> over \<open>color.items()\<close>:
  \<^verbatim>\<open>xml = xml.replace(f"val=\"{original}\"", f"val=\"{replacement}\"")\<close>
\<close>

definition recolor :: "(string, string) dict \<Rightarrow> string \<Rightarrow> string" where
  "recolor colors xml =
     fold (\<lambda>(original, replacement) xml.
             replace (val_attr original) (val_attr replacement) xml) colors xml"

text \<open>
  The state of the process that the controller's constructor reads and writes: the class
  attribute \<open>was_theme_updated\<close> and the two module globals \<open>theme.theme_xml\<close> and
  \<open>excel.theme_xml\<close>. The field \<open>update_theme_calls\<close> is not in the program: it
  counts the runs of the body of \<open>update_theme\<close>, so that "at most once" can be stated.
\<close>

record process =
  was_theme_updated :: bool
  theme_xml :: string
  excel_theme_xml :: string
  update_theme_calls :: nat

definition update_theme :: "process \<Rightarrow> process" where
  "update_theme p =
     (let xml = recolor color (theme_xml p)
      in p\<lparr>theme_xml := xml, excel_theme_xml := xml,
            update_theme_calls := update_theme_calls p + 1\<rparr>)"

text \<open>\<open>WorkbookController.__init__\<close>.\<close>

definition init_controller :: "process \<Rightarrow> process" where
  "init_controller p =
     (if \<not> was_theme_updated p then (update_theme p)\<lparr>was_theme_updated := True\<rparr> else p)"

text \<open>
  The process when the module has been loaded, for a theme template \<open>xml\<close> of the
  workbook library: both globals hold the template and the flag is \<open>False\<close>.
\<close>

definition initial_process :: "string \<Rightarrow> process" where
  "initial_process xml =
     \<lparr>was_theme_updated = False, theme_xml = xml, excel_theme_xml = xml,
      update_theme_calls = 0\<rparr>"

definition theme_state :: "process \<Rightarrow> string \<times> string" where
  "theme_state p = (theme_xml p, excel_theme_xml p)"

section \<open>\<open>WorkbookController\<close>: the container repair\<close>

text \<open>
  A zip archive is the list of its entries, name and bytes, in archive order; a name may
  occur more than once. \<open>namelist\<close> gives every entry's name; \<open>zip_open\<close> looks a name
  up in the archive's name table, where a later entry of the same name has replaced an
  earlier one, and raises \<open>KeyError\<close> for a name that is not there.
\<close>

type_synonym bytes = string
type_synonym zip_file = "(string \<times> bytes) list"

definition namelist :: "zip_file \<Rightarrow> string list" where
  "namelist z = map fst z"

definition zip_open :: "zip_file \<Rightarrow> string \<Rightarrow> py_error + (string \<times> bytes)" where
  "zip_open z name =
     (case map_of (rev z) name of None \<Rightarrow> Inl KeyError | Some data \<Rightarrow> Inr (name, data))"

definition FIRST_NAMES :: "string list" where
  "FIRST_NAMES = [''[Content_Types].xml'', ''xl/workbook.xml'', ''xl/styles.xml'']"

text \<open>
  The loop over \<open>ordered_names\<close>; \<open>writestr\<close> appends an entry to the new archive. A
  \<open>KeyError\<close> is caught and passed over; any other exception leaves the function.
\<close>

fun copy_entries :: "zip_file \<Rightarrow> string list \<Rightarrow> zip_file \<Rightarrow> py_error + zip_file" where
  "copy_entries z [] buffer = Inr buffer"
| "copy_entries z (name # names) buffer =
     (case zip_open z name of
        Inl KeyError \<Rightarrow> copy_entries z names buffer
      | Inl e \<Rightarrow> Inl e
      | Inr (file_name, data) \<Rightarrow> copy_entries z names (buffer @ [(file_name, data)]))"

definition fix_workbook_mime_type :: "zip_file \<Rightarrow> py_error + zip_file" where
  "fix_workbook_mime_type z =
     (let names = namelist z;
          remaining_names = filter (\<lambda>name. name \<notin> set FIRST_NAMES) names;
          ordered_names = FIRST_NAMES @ remaining_names
      in copy_entries z ordered_names [])"

section \<open>\<open>WorkbookController\<close>: the workbook\<close>

subsection \<open>Lists, integers and column letters\<close>







subsection \<open>The worksheet\<close>

text \<open>
  A cell value is \<open>None\<close>, a string, or a \<open>datetime.datetime\<close>, which is held by the
  text \<open>str\<close> gives for it.
\<close>

datatype py_value = PNone | Str string | DateTime string

record cell =
  number_format :: string
  cell_value :: py_value
  data_type :: string

definition FORMAT_TEXT :: string where
  "FORMAT_TEXT = ''@''"

definition ISO_8601_NUMBER_FORMAT :: string where
  "ISO_8601_NUMBER_FORMAT = ''yyyy-mm-ddThh:MM:ss''"

text \<open>
  The value setter of a cell of the workbook library. A string is cut to its first
  32767 characters, and \<open>IllegalCharacterError\<close> is raised when what is left has one of
  the control characters 0 to 8, 11, 12 and 14 to 31. The string kept is a formula when
  it has more than one character and starts with \<open>=\<close>, an error when it is one of the
  error codes, and text otherwise. \<open>None\<close> and a \<open>datetime\<close> are kept as they are.
\<close>

definition illegal_character :: "char \<Rightarrow> bool" where
  "illegal_character c =
     (let n = (of_char c :: nat) in n \<le> 8 \<or> n = 11 \<or> n = 12 \<or> (14 \<le> n \<and> n \<le> 31))"

definition check_string :: "string \<Rightarrow> py_error + string" where
  "check_string value =
     (let value1 = take 32767 value
      in if list_ex illegal_character value1 then Inl IllegalCharacterError else Inr value1)"




record table_column =
  column_id :: nat
  column_name :: string
  totalsRowLabel :: "string option"
  totalsRowFunction :: "string option"

record table_style =
  style_name :: string
  showFirstColumn :: bool
  showLastColumn :: bool
  showRowStripes :: bool
  showColumnStripes :: bool

record table =
  displayName :: string
  table_ref :: string
  autoFilter_ref :: string
  tableStyleInfo :: table_style
  headerRowCount :: nat
  totalsRowShown :: bool
  totalsRowCount :: nat
  tableColumns :: "table_column list"

text \<open>
  The worksheet of the workbook library, as far as \<open>create_workbook\<close> uses it: the
  dictionary \<open>_cells\<close> from (row, column) to the cell, the counter \<open>_current_row\<close>, the
  tables, the column widths and the selection.
\<close>

record worksheet =
  sheet_title :: string
  cells :: "(nat \<times> nat, cell) dict"
  current_row :: nat
  tables :: "table list"
  column_widths :: "(string, nat) dict"
  activeCell :: string
  sqref :: string

record workbook =
  properties_title :: string
  properties_creator :: "string option"
  active :: worksheet






text \<open>
  \<open>sheet.cell(row=r, column=c)\<close>. It raises \<open>ValueError\<close> for a row or a column below 1,
  and \<open>_get_cell\<close> raises \<open>ValueError\<close> for a row that is not between 1 and 1048576.
  Otherwise the result is the cell there, made first when there is none (an empty cell
  of general format and numeric type); making a cell raises \<open>_current_row\<close> to its row.
\<close>

definition empty_cell :: cell where
  "empty_cell = \<lparr>number_format = ''General'', cell_value = PNone, data_type = ''n''\<rparr>"

definition add_cell :: "nat \<Rightarrow> nat \<Rightarrow> worksheet \<Rightarrow> worksheet" where
  "add_cell r c sheet =
     (if has_key (r, c) (cells sheet) then sheet
      else sheet\<lparr>cells := setitem (r, c) empty_cell (cells sheet),
                 current_row := max r (current_row sheet)\<rparr>)"

definition get_cell :: "nat \<Rightarrow> nat \<Rightarrow> worksheet \<Rightarrow> py_error + worksheet" where
  "get_cell r c sheet =
     (if \<not> (0 < r \<and> r < 1048577) then Inl ValueError else Inr (add_cell r c sheet))"

definition sheet_cell :: "nat \<Rightarrow> nat \<Rightarrow> worksheet \<Rightarrow> py_error + worksheet" where
  "sheet_cell r c sheet = (if r < 1 \<or> c < 1 then Inl ValueError else get_cell r c sheet)"

text \<open>
  The body of the inner loop of "Add data". The value is
  \<^verbatim>\<open>value = (row[key] if key in row else "")\<close>,
  and the cell at \<open>(r, c)\<close> gets its number format, its value and its data type, in
  that order: the ISO format and the type \<open>d\<close> for a \<open>datetime\<close>, the text format and
  the type \<open>s\<close> for anything else. The assignment of the value goes through the value
  setter, which may raise and which may cut the string.
\<close>

definition row_get :: "(string, py_value) dict \<Rightarrow> string \<Rightarrow> py_value" where
  "row_get row key = (case map_of row key of Some x \<Rightarrow> x | None \<Rightarrow> Str '''')"

definition typed_cell :: "py_value \<Rightarrow> py_value \<Rightarrow> cell" where
  "typed_cell v bound =
     (let is_datetime = (case v of DateTime t \<Rightarrow> True | _ \<Rightarrow> False);
          cell_number_format = (if is_datetime then ISO_8601_NUMBER_FORMAT else FORMAT_TEXT);
          cell_data_type = (if is_datetime then ''d'' else ''s'')
      in \<lparr>number_format = cell_number_format, cell_value = bound,
          data_type = cell_data_type\<rparr>)"














subsection \<open>\<open>create_workbook\<close>\<close>








section \<open>Notions used in the statements about extraction\<close>

text \<open>
  The order in which keys are first seen: \<open>insert_key\<close> puts a key at the end unless it
  is there already.
\<close>

definition insert_key :: "'k \<Rightarrow> 'k list \<Rightarrow> 'k list" where
  "insert_key k ks = (if k \<in> set ks then ks else ks @ [k])"

definition first_seen :: "'k list \<Rightarrow> 'k list" where
  "first_seen ks = fold insert_key ks []"

text \<open>
  A table row as the specification describes it: its cells, its raw key (cell 1, trimmed,
  trailing colons stripped), its value (cell 2, trimmed), whether it is included (at
  least two cells, and not both key and value empty), and the entry it yields.
\<close>

definition row_cells :: "node \<Rightarrow> node list" where
  "row_cells row = select_tag ''td'' row"

definition row_key :: "node \<Rightarrow> string" where
  "row_key row = rstrip_chars '':'' (strip (get_text (row_cells row ! 0)))"

definition row_value :: "node \<Rightarrow> string" where
  "row_value row = strip (get_text (row_cells row ! 1))"

definition row_included :: "node \<Rightarrow> bool" where
  "row_included row =
     (2 \<le> length (row_cells row) \<and> \<not> (row_key row = [] \<and> row_value row = []))"

definition title_of :: "schema \<Rightarrow> string \<Rightarrow> string" where
  "title_of key_title key = (case map_of key_title key of Some t \<Rightarrow> t | None \<Rightarrow> key)"

definition row_entry :: "schema \<Rightarrow> node \<Rightarrow> string \<times> string" where
  "row_entry key_title row = (title_of key_title (row_key row), row_value row)"

definition table_entries :: "schema \<Rightarrow> node \<Rightarrow> (string \<times> string) list" where
  "table_entries key_title table =
     map (row_entry key_title) (filter row_included (select_tag ''tr'' table))"

text \<open>Example nodes: a heading, two tables with their notes.\<close>

definition heading_alabama :: node where
  "heading_alabama = Tag ''h2'' [NavigableString Text '' Alabama '']"

definition heading_alaska :: node where
  "heading_alaska = Tag ''h2'' [NavigableString Text ''Alaska'']"

definition table_alabama :: node where
  "table_alabama =
     Tag ''div'' [Tag ''table''
       [Tag ''tr'' [Tag ''td'' [NavigableString Text ''Frequency:''],
                    Tag ''td'' [NavigableString Text '' Annual '']],
        Tag ''tr'' [Tag ''td'' [NavigableString Text ''only one cell'']],
        Tag ''tr'' [Tag ''td'' [], Tag ''td'' [NavigableString Text '' '']],
        Tag ''tr'' [Tag ''td'' [NavigableString Text ''Bidding Process:''],
                    Tag ''td'' [NavigableString Text ''Premium'']],
        Tag ''tr'' [Tag ''td'' [NavigableString Text ''County''],
                    Tag ''td'' [NavigableString Text ''All'']]]]"

definition notes_alabama :: node where
  "notes_alabama = Tag ''div'' [Tag ''p'' [NavigableString Text ''NOTES: Sales in May'']]"

definition table_alaska :: node where
  "table_alaska =
     Tag ''div'' [Tag ''table''
       [Tag ''tr'' [Tag ''td'' [NavigableString Text ''Statute:''],
                    Tag ''td'' [NavigableString Text ''AS 29.45'']],
        Tag ''tr'' [Tag ''td'' [NavigableString Text ''Type:''],
                    Tag ''td'' [NavigableString Text ''Deed'']]]]"

definition notes_alaska :: node where
  "notes_alaska = Tag ''div'' [Tag ''p'' [NavigableString Text ''NOTES:'']]"

definition record_alaska :: row_dict where
  "record_alaska =
     [(''State'', ''Alaska''), (''Statute'', ''AS 29.45''), (''Type'', ''Deed''),
      (''Description'', ''''), (''Bidding process'', ''''), (''Frequency'', ''''),
      (''Interest rate / penalty'', ''''), (''Redemption period'', ''''),
      (''Online auction'', ''''), (''Over the counter'', ''''), (''Notes'', '''')]"

text \<open>
  A table whose cells hold a script, a style sheet and a comment beside their text, and
  a row whose two cells hold nothing else.
\<close>

definition table_with_scripts :: node where
  "table_with_scripts =
     Tag ''table''
       [Tag ''tr'' [Tag ''td'' [NavigableString Text ''A'',
                                Tag ''script'' [NavigableString Script ''x'']],
                    Tag ''td'' [Tag ''style'' [NavigableString Stylesheet ''s''],
                                NavigableString Text ''B'']],
        Tag ''tr'' [Tag ''td'' [NavigableString Comment ''c''],
                    Tag ''td'' [Tag ''script'' [NavigableString Script ''y'']]]]"

section \<open>Notions used in the statements about the workbook\<close>

text \<open>
  The container the specification describes: the entries named in \<open>FIRST_NAMES\<close> first,
  in that order, each only when the archive has it, then all other entries in their
  order, every entry with its own bytes.
\<close>

definition entries_named :: "zip_file \<Rightarrow> string \<Rightarrow> zip_file" where
  "entries_named z name = filter (\<lambda>e. fst e = name) z"

definition moved_to_front :: "zip_file \<Rightarrow> zip_file" where
  "moved_to_front z =
     concat (map (entries_named z) FIRST_NAMES) @ filter (\<lambda>e. fst e \<notin> set FIRST_NAMES) z"

text \<open>
  A token of the theme that starts with the letter \<open>v\<close> and has no other \<open>v\<close>, as
  \<^verbatim>\<open>val="1F497D"\<close> does; and a colour table whose codes have six characters, none of
  them \<open>v\<close>, and where no original is a replacement.
\<close>

definition led_by_v :: "string \<Rightarrow> bool" where
  "led_by_v t = (case t of [] \<Rightarrow> False | c # cs \<Rightarrow> c = CHR ''v'' \<and> CHR ''v'' \<notin> set cs)"

definition hex_table :: "(string, string) dict \<Rightarrow> bool" where
  "hex_table colors =
     (list_all (\<lambda>(original, replacement).
                  CHR ''v'' \<notin> set original \<and> CHR ''v'' \<notin> set replacement \<and>
                  length original = 6 \<and> length replacement = 6) colors \<and>
      list_all (\<lambda>original. original \<notin> set (values_of colors)) (keys colors))"


definition rows_below :: "worksheet \<Rightarrow> bool" where
  "rows_below sheet = list_all (\<lambda>k. fst k \<le> current_row sheet) (keys (cells sheet))"

text \<open>
  What the value setter accepts and what it keeps: a text is legal when its first 32767
  characters have no illegal character; a value can be stored when it is no string or a
  legal one; what is stored of a string is its first 32767 characters.
\<close>

definition legal_text :: "string \<Rightarrow> bool" where
  "legal_text s = (\<not> list_ex illegal_character (take 32767 s))"


definition stored :: "py_value \<Rightarrow> py_value" where
  "stored v = (case v of Str s \<Rightarrow> Str (take 32767 s) | _ \<Rightarrow> v)"



text \<open>
  The sheet when every value is accepted: the loops of \<open>create_workbook\<close> without
  their error branches, storing what the value setter keeps.
\<close>

definition put_cell :: "nat \<Rightarrow> nat \<Rightarrow> py_value \<Rightarrow> worksheet \<Rightarrow> worksheet" where
  "put_cell r c v sheet =
     (let sheet1 = add_cell r c sheet
      in sheet1\<lparr>cells := setitem (r, c) (typed_cell v (stored v)) (cells sheet1)\<rparr>)"

fun put_row ::
  "nat \<Rightarrow> (string, py_value) dict \<Rightarrow> nat \<Rightarrow> string list \<Rightarrow> worksheet \<Rightarrow> worksheet" where
  "put_row r row c [] sheet = sheet"
| "put_row r row c (key # ks) sheet = put_row r row (c + 1) ks (put_cell r c (row_get row key) sheet)"

fun put_rows ::
  "nat \<Rightarrow> (string, py_value) dict list \<Rightarrow> string list \<Rightarrow> worksheet \<Rightarrow> worksheet" where
  "put_rows r [] ks sheet = sheet"
| "put_rows r (row # rows) ks sheet = put_rows (r + 1) rows ks (put_row r row 1 ks sheet)"






section \<open>Properties of extraction\<close>

subsection \<open>Keys of dictionaries\<close>

lemma keys_setitem: "keys (setitem k v d) = insert_key k (keys d)"
  by (simp add: keys_def setitem_def insert_key_def update_keys)

lemma keys_unpack_into: "keys (unpack_into e d) = fold insert_key (keys e) (keys d)"
  unfolding unpack_into_def
  by (induction e arbitrary: d) (auto simp: keys_setitem[unfolded keys_def] keys_def)

lemma keys_add_missing_keys_loop:
  "keys (add_missing_keys_loop ts row) = fold insert_key ts (keys row)"
  by (induction ts arbitrary: row) (auto simp: keys_setitem has_key_def insert_key_def)

lemma set_fold_insert_key: "set (fold insert_key ks acc) = set acc \<union> set ks"
  by (induction ks arbitrary: acc) (auto simp: insert_key_def)

lemma distinct_fold_insert_key: "distinct acc \<Longrightarrow> distinct (fold insert_key ks acc)"
  by (induction ks arbitrary: acc) (auto simp: insert_key_def)

lemma fold_insert_key_insert:
  "fold insert_key (insert_key x ys) acc = insert_key x (fold insert_key ys acc)"
  by (simp add: insert_key_def set_fold_insert_key)

lemma fold_insert_key_fold:
  "fold insert_key (fold insert_key xs ys) acc = fold insert_key xs (fold insert_key ys acc)"
  by (induction xs arbitrary: ys) (simp_all add: fold_insert_key_insert)

subsection \<open>The rows of a table\<close>

lemma parse_rows_entries:
  "parse_rows kt rows result =
     unpack_into (map (row_entry kt) (filter row_included rows)) result"
  by (induction rows arbitrary: result)
     (auto simp: unpack_into_def Let_def row_included_def row_key_def row_value_def
        row_cells_def row_entry_def title_of_def)

lemma parse_table_entries: "parse_table kt table = unpack_into (table_entries kt table) []"
  by (simp add: parse_table_def table_entries_def parse_rows_entries)

lemma map_of_unpack_into: "map_of (unpack_into e d) = map_of d ++ map_of (rev e)"
  unfolding unpack_into_def
proof (induction e arbitrary: d)
  case Nil
  then show ?case by simp
next
  case (Cons p e)
  obtain k v where p: "p = (k, v)" by (cases p)
  show ?case using Cons.IH[of "setitem k v d"] p
    by (simp add: setitem_def update_conv' fun_eq_iff map_add_def split: option.splits)
qed

lemma keys_parse_table: "keys (parse_table kt table) = first_seen (map fst (table_entries kt table))"
  unfolding parse_table_entries keys_unpack_into first_seen_def by (simp add: keys_def)

text \<open>
  C5. \<open>parse_table\<close> holds exactly the entries of the included rows of the table,
  assigned in row order: a row is included when it has at least two cells and its key
  and value are not both empty; its key is the trimmed text of cell 1 without trailing
  colons, mapped through the schema when the schema has it and kept as it is otherwise;
  its value is the trimmed text of cell 2. So the keys of the result are the titles of
  the included rows in the order they are first seen, and a title's value is that of the
  last included row with this title.
\<close>

theorem parse_table_included_rows:
  "parse_table kt table = unpack_into (table_entries kt table) [] \<and>
   keys (parse_table kt table) = first_seen (map fst (table_entries kt table)) \<and>
   map_of (parse_table kt table) = map_of (rev (table_entries kt table)) \<and>
   table_entries kt table =
     map (\<lambda>row. (case map_of kt (row_key row) of Some t \<Rightarrow> t | None \<Rightarrow> row_key row,
                  row_value row))
       (filter (\<lambda>row. 2 \<le> length (select_tag ''td'' row) \<and>
                       \<not> (row_key row = [] \<and> row_value row = []))
          (select_tag ''tr'' table))"
proof (intro conjI)
  show "parse_table kt table = unpack_into (table_entries kt table) []"
    by (rule parse_table_entries)
  show "keys (parse_table kt table) = first_seen (map fst (table_entries kt table))"
    by (rule keys_parse_table)
  show "map_of (parse_table kt table) = map_of (rev (table_entries kt table))"
    by (simp add: parse_table_entries map_of_unpack_into)
  have "row_included = (\<lambda>row. 2 \<le> length (select_tag ''td'' row) \<and>
                       \<not> (row_key row = [] \<and> row_value row = []))"
    by (simp add: fun_eq_iff row_included_def row_cells_def)
  then show "table_entries kt table =
     map (\<lambda>row. (case map_of kt (row_key row) of Some t \<Rightarrow> t | None \<Rightarrow> row_key row,
                  row_value row))
       (filter (\<lambda>row. 2 \<le> length (select_tag ''td'' row) \<and>
                       \<not> (row_key row = [] \<and> row_value row = []))
          (select_tag ''tr'' table))"
    by (simp add: table_entries_def row_entry_def title_of_def)
qed

text \<open>
  The scenario of the specification: the row "Frequency:" / " Annual " yields
  \<open>Frequency\<close> \<open>\<mapsto>\<close> \<open>Annual\<close>, the row with one cell and the row with two empty cells yield
  nothing, "Bidding Process" is mapped to its title, and the label "County", which the
  schema does not have, is kept.
\<close>

lemma parse_table_scenario:
  "parse_table KEY_TITLE table_alabama =
     [(''Frequency'', ''Annual''), (''Bidding process'', ''Premium''), (''County'', ''All'')]"
  by code_simp

text \<open>
  The text of a cell is that of its text strings: the strings of a script, a style sheet
  and a comment are no part of it, so the first row of this table is \<open>A\<close> \<open>\<mapsto>\<close> \<open>B\<close>,
  and its second row, whose cells hold nothing else, is skipped. The text of the script
  element itself is its script.
\<close>

lemma parse_table_skips_scripts:
  "parse_table KEY_TITLE table_with_scripts = [(''A'', ''B'')] \<and>
   get_text (Tag ''script'' [NavigableString Script ''x'']) = ''x''"
  by code_simp

subsection \<open>The loop of \<open>parse\<close>\<close>

lemma length_zip_longest_shared: "length (zip_longest_shared xs) = (length xs + 1) div 2"
  by (induction xs rule: zip_longest_shared.induct) auto

lemma zip_longest_shared_nth:
  "j < length (zip_longest_shared xs) \<Longrightarrow>
     zip_longest_shared xs ! j =
       (xs ! (2 * j), if 2 * j + 1 < length xs then Some (xs ! (2 * j + 1)) else None)"
proof (induction xs arbitrary: j rule: zip_longest_shared.induct)
  case 1
  then show ?case by simp
next
  case (2 x)
  then show ?case by simp
next
  case (3 x y zs)
  then show ?case by (cases j) auto
qed

lemma parse_item_Inr:
  assumes "parse_item kt hs i t n = Inr it"
  shows "i < length hs \<and>
         (\<exists>nn. n = Some nn \<and>
            it = add_missing_keys kt
                   (setitem ''Description''
                      (lstrip (removeprefix ''NOTES:'' (strip (get_text nn))))
                      (unpack_into (parse_table kt t)
                         (setitem ''State'' (strip (get_text (hs ! i))) []))))"
  using assms by (auto simp: parse_item_def Let_def split: if_splits option.splits)

lemma parse_item_ok:
  "i < length hs \<Longrightarrow> n \<noteq> None \<Longrightarrow> \<exists>it. parse_item kt hs i t n = Inr it"
  by (auto simp: parse_item_def Let_def)

lemma keys_parse_item:
  assumes "parse_item kt hs i t n = Inr it"
  shows "keys it =
           first_seen (''State'' # map fst (table_entries kt t) @ ''Description'' # titles kt)"
proof -
  from parse_item_Inr[OF assms] obtain nn where
    it: "it = add_missing_keys kt
                   (setitem ''Description''
                      (lstrip (removeprefix ''NOTES:'' (strip (get_text nn))))
                      (unpack_into (parse_table kt t)
                         (setitem ''State'' (strip (get_text (hs ! i))) [])))"
    by blast
  have "keys it =
          fold insert_key (titles kt)
            (insert_key ''Description''
               (fold insert_key (first_seen (map fst (table_entries kt t)))
                  (insert_key ''State'' [])))"
    unfolding it add_missing_keys_def
    by (simp add: keys_add_missing_keys_loop keys_setitem keys_unpack_into keys_parse_table)
       (simp add: keys_def)
  also have "\<dots> = first_seen (''State'' # map fst (table_entries kt t) @ ''Description'' # titles kt)"
    by (simp add: first_seen_def fold_insert_key_fold)
  finally show ?thesis .
qed

lemma parse_loop_Inr:
  "parse_loop kt hs i ps items = Inr res \<Longrightarrow>
     length res = length items + length ps \<and> take (length items) res = items \<and>
     (\<forall>j<length ps. parse_item kt hs (i + j) (fst (ps ! j)) (snd (ps ! j))
         = Inr (res ! (length items + j)))"
proof (induction ps arbitrary: i items)
  case Nil
  then show ?case by simp
next
  case (Cons p ps)
  obtain t n where p: "p = (t, n)" by (cases p)
  from Cons.prems p obtain it where it: "parse_item kt hs i t n = Inr it"
    and rest: "parse_loop kt hs (i + 1) ps (items @ [it]) = Inr res"
    by (auto split: sum.splits)
  from Cons.IH[OF rest] have len: "length res = length items + 1 + length ps"
    and tk: "take (length items + 1) res = items @ [it]"
    and nth: "\<forall>j<length ps. parse_item kt hs (i + 1 + j) (fst (ps ! j)) (snd (ps ! j))
         = Inr (res ! (length items + 1 + j))"
    by auto
  from tk have tk': "take (length items) res = items"
    by (metis Suc_eq_plus1 butlast_snoc butlast_take diff_add_inverse2 le_add1 len)
  from tk len have hd: "res ! length items = it"
    by (metis Suc_eq_plus1 lessI nth_append_length nth_take)
  show ?case
  proof (intro conjI allI impI)
    show "length res = length items + length (p # ps)" using len by simp
    show "take (length items) res = items" by (rule tk')
  next
    fix j assume j: "j < length (p # ps)"
    show "parse_item kt hs (i + j) (fst ((p # ps) ! j)) (snd ((p # ps) ! j))
            = Inr (res ! (length items + j))"
    proof (cases j)
      case 0
      then show ?thesis using it hd p by simp
    next
      case (Suc k)
      then show ?thesis using nth j by simp
    qed
  qed
qed



lemma parse_loop_AttributeError:
  "i + length ps \<le> length hs \<Longrightarrow> ps \<noteq> [] \<Longrightarrow> snd (last ps) = None \<Longrightarrow>
   (\<forall>j<length ps - 1. snd (ps ! j) \<noteq> None) \<Longrightarrow>
     parse_loop kt hs i ps items = Inl AttributeError"
proof (induction ps arbitrary: i items)
  case Nil
  then show ?case by simp
next
  case (Cons p ps)
  obtain t n where p: "p = (t, n)" by (cases p)
  from Cons.prems have lt: "i < length hs" by simp
  show ?case
  proof (cases "ps = []")
    case True
    with Cons.prems p have "n = None" by simp
    then show ?thesis using p lt by (simp add: parse_item_def Let_def)
  next
    case False
    with Cons.prems(4) have "snd ((p # ps) ! 0) \<noteq> None"
      by (metis One_nat_def diff_Suc_1 length_Cons length_greater_0_conv)
    with p lt obtain it where it: "parse_item kt hs i t n = Inr it"
      using parse_item_ok by fastforce
    have "\<forall>j<length ps - 1. snd (ps ! j) \<noteq> None"
    proof (intro allI impI)
      fix j assume "j < length ps - 1"
      then have "Suc j < length (p # ps) - 1" by simp
      with Cons.prems(4) have "snd ((p # ps) ! Suc j) \<noteq> None" by blast
      then show "snd (ps ! j) \<noteq> None" by simp
    qed
    from Cons.IH[OF _ False _ this, of "i + 1" "items @ [it]"] Cons.prems False
    show ?thesis using it p by simp
  qed
qed

text \<open>What a returned sequence tells about the input, pair by pair.\<close>

lemma parse_Inr:
  assumes "parse kt hs tn = Inr items"
  shows "length items = (length tn + 1) div 2"
    and "\<And>j. j < length items \<Longrightarrow>
           parse_item kt hs j (tn ! (2 * j))
             (if 2 * j + 1 < length tn then Some (tn ! (2 * j + 1)) else None) = Inr (items ! j)"
proof -
  from assms have loop: "parse_loop kt hs 0 (zip_longest_shared tn) [] = Inr items"
    by (simp add: parse_def)
  from parse_loop_Inr[OF loop] show len: "length items = (length tn + 1) div 2"
    by (simp add: length_zip_longest_shared)
  fix j assume j: "j < length items"
  then have j': "j < length (zip_longest_shared tn)"
    using len by (simp add: length_zip_longest_shared)
  with parse_loop_Inr[OF loop]
  have "parse_item kt hs j (fst (zip_longest_shared tn ! j)) (snd (zip_longest_shared tn ! j))
          = Inr (items ! j)"
    by simp
  then show "parse_item kt hs j (tn ! (2 * j))
             (if 2 * j + 1 < length tn then Some (tn ! (2 * j + 1)) else None) = Inr (items ! j)"
    by (simp add: zip_longest_shared_nth[OF j'])
qed

lemma parse_Inr_even:
  assumes "parse kt hs tn = Inr items"
  shows "even (length tn)"
proof (rule ccontr)
  assume odd: "odd (length tn)"
  define j where "j = length tn div 2"
  from odd have tn: "length tn = 2 * j + 1"
    unfolding j_def by presburger
  from parse_Inr(1)[OF assms] tn have j: "j < length items" by simp
  from parse_Inr(2)[OF assms j] tn
  have "parse_item kt hs j (tn ! (2 * j)) None = Inr (items ! j)" by simp
  then show False by (simp add: parse_item_def Let_def split: if_splits)
qed



lemma parse_odd_nodes:
  assumes "odd (length tn)" and "(length tn + 1) div 2 \<le> length hs"
  shows "parse kt hs tn = Inl AttributeError"
proof -
  let ?ps = "zip_longest_shared tn"
  from assms(1) have ne: "?ps \<noteq> []"
    by (cases tn rule: zip_longest_shared.cases) auto
  have len: "length ?ps = (length tn + 1) div 2" by (rule length_zip_longest_shared)
  have last: "snd (last ?ps) = None"
  proof -
    have l: "length ?ps - 1 < length ?ps" using ne by simp
    have "\<not> 2 * (length ?ps - 1) + 1 < length tn"
      using assms(1) len by presburger
    with zip_longest_shared_nth[OF l] have "snd (?ps ! (length ?ps - 1)) = None"
      by simp
    then show ?thesis
      by (simp only: last_conv_nth[OF ne])
  qed
  have rest: "\<forall>j<length ?ps - 1. snd (?ps ! j) \<noteq> None"
  proof (intro allI impI)
    fix j assume j: "j < length ?ps - 1"
    then have j': "j < length ?ps" by simp
    from j len have "2 * j + 1 < length tn" by presburger
    then show "snd (?ps ! j) \<noteq> None"
      by (simp add: zip_longest_shared_nth[OF j'])
  qed
  from parse_loop_AttributeError[OF _ ne last rest, of 0 hs kt "[]"] assms(2) len
  show ?thesis by (simp add: parse_def)
qed

subsection \<open>The claims about \<open>parse\<close>\<close>

lemma set_keys_parse_item:
  assumes "parse_item kt hs i t n = Inr it"
  shows "set (keys it) =
           {''State'', ''Description''} \<union> set (map fst (table_entries kt t)) \<union> set (titles kt)"
  unfolding keys_parse_item[OF assms] first_seen_def set_fold_insert_key by auto

text \<open>
  C1, as the code has it. When \<open>parse\<close> returns, it returns one record for every
  (table, notes) pair of content nodes: twice the number of records is the number of
  content nodes. That number is at most the number of heading nodes, not equal to it.
  Every returned record has every schema title among its keys.
\<close>

theorem parse_one_record_per_pair:
  assumes "parse kt hs tn = Inr items"
  shows "2 * length items = length tn \<and> length items \<le> length hs \<and>
         (\<forall>r\<in>set items. set (titles kt) \<subseteq> set (keys r))"
proof (intro conjI ballI)
  from parse_Inr(1)[OF assms] parse_Inr_even[OF assms]
  show "2 * length items = length tn" by presburger
  show "length items \<le> length hs"
  proof (cases "items = []")
    case True
    then show ?thesis by simp
  next
    case False
    then have l: "length items - 1 < length items" by simp
    from parse_item_Inr[OF parse_Inr(2)[OF assms l]]
    have "length items - 1 < length hs" by (rule conjunct1)
    with l show ?thesis by linarith
  qed
next
  fix r assume "r \<in> set items"
  then obtain j where j: "j < length items" and r: "r = items ! j"
    by (auto simp: in_set_conv_nth)
  from set_keys_parse_item[OF parse_Inr(2)[OF assms j]] r
  show "set (titles kt) \<subseteq> set (keys r)" by auto
qed

text \<open>
  With two headings and one (table, notes) pair, \<open>parse\<close> returns one record, and the
  record has the eleven titles of \<open>KEY_TITLE\<close> among its keys.
\<close>

theorem parse_one_record_per_pair_witness:
  "parse KEY_TITLE [heading_alabama, heading_alaska] [table_alabama, notes_alabama] =
     Inr [[(''State'', ''Alabama''), (''Frequency'', ''Annual''),
           (''Bidding process'', ''Premium''), (''County'', ''All''),
           (''Description'', ''Sales in May''), (''Type'', ''''),
           (''Interest rate / penalty'', ''''), (''Redemption period'', ''''),
           (''Online auction'', ''''), (''Over the counter'', ''''),
           (''Statute'', ''''), (''Notes'', '''')]] \<and>
   set (titles KEY_TITLE) \<subseteq>
     set (keys [(''State'', ''Alabama''), (''Frequency'', ''Annual''),
           (''Bidding process'', ''Premium''), (''County'', ''All''),
           (''Description'', ''Sales in May''), (''Type'', ''''),
           (''Interest rate / penalty'', ''''), (''Redemption period'', ''''),
           (''Online auction'', ''''), (''Over the counter'', ''''),
           (''Statute'', ''''), (''Notes'', '''')])"
proof -
  have e: "parse KEY_TITLE [heading_alabama, heading_alaska] [table_alabama, notes_alabama] =
     Inr [[(''State'', ''Alabama''), (''Frequency'', ''Annual''),
           (''Bidding process'', ''Premium''), (''County'', ''All''),
           (''Description'', ''Sales in May''), (''Type'', ''''),
           (''Interest rate / penalty'', ''''), (''Redemption period'', ''''),
           (''Online auction'', ''''), (''Over the counter'', ''''),
           (''Statute'', ''''), (''Notes'', '''')]]"
    by code_simp
  from parse_one_record_per_pair[OF e] e show ?thesis by simp
qed

text \<open>
  One heading node and no content node: \<open>parse\<close> returns no record, so the length of
  the result is not the number of headings.
\<close>

theorem parse_length_not_headings:
  "parse KEY_TITLE [heading_alabama] [] = Inr [] \<and>
   length ([] :: row_dict list) \<noteq> length [heading_alabama]"
  by (simp add: parse_def)

text \<open>
  C2, as the code has it. The keys of the \<open>i\<close>-th record of a result come in the order
  in which they are first seen in the sequence \<open>State\<close>, the titles of the included rows
  of the \<open>i\<close>-th table, \<open>Description\<close>, the schema titles. So no key occurs twice, every schema
  title is a key, and the key set is the schema's title set exactly when \<open>State\<close>,
  \<open>Description\<close> and the titles of the table's rows are schema titles. A row label the
  schema does not map is kept as a key, and the order is the schema's only when the
  table's rows come in that order.
\<close>

theorem parse_record_keys:
  assumes "parse kt hs tn = Inr items" and "i < length items"
  shows "keys (items ! i) =
           first_seen (''State'' # map fst (table_entries kt (tn ! (2 * i))) @
                       ''Description'' # titles kt) \<and>
         distinct (keys (items ! i)) \<and>
         set (titles kt) \<subseteq> set (keys (items ! i)) \<and>
         (set (keys (items ! i)) = set (titles kt) \<longleftrightarrow>
            {''State'', ''Description''} \<union> set (map fst (table_entries kt (tn ! (2 * i))))
              \<subseteq> set (titles kt))"
proof -
  note item = parse_Inr(2)[OF assms]
  have k: "keys (items ! i) =
           first_seen (''State'' # map fst (table_entries kt (tn ! (2 * i))) @
                       ''Description'' # titles kt)"
    by (rule keys_parse_item[OF item])
  have d: "distinct (keys (items ! i))"
    unfolding k first_seen_def by (rule distinct_fold_insert_key) simp
  have s: "set (keys (items ! i)) =
             {''State'', ''Description''} \<union> set (map fst (table_entries kt (tn ! (2 * i))))
               \<union> set (titles kt)"
    by (rule set_keys_parse_item[OF item])
  have t: "set (titles kt) \<subseteq> set (keys (items ! i))"
    unfolding s by (rule Un_upper2)
  have e: "set (keys (items ! i)) = set (titles kt) \<longleftrightarrow>
            {''State'', ''Description''} \<union> set (map fst (table_entries kt (tn ! (2 * i))))
              \<subseteq> set (titles kt)"
    unfolding s by blast
  from k d t e show ?thesis by (intro conjI)
qed

text \<open>
  The record of Alaska: its table has the rows \<open>Statute\<close> and \<open>Type\<close>, in this order,
  and its keys are in first-seen order.
\<close>

theorem parse_record_keys_witness:
  "parse KEY_TITLE [heading_alaska] [table_alaska, notes_alaska] = Inr [record_alaska] \<and>
   keys record_alaska =
     first_seen (''State'' # map fst (table_entries KEY_TITLE table_alaska) @
                 ''Description'' # titles KEY_TITLE) \<and>
   distinct (keys record_alaska)"
proof -
  have e: "parse KEY_TITLE [heading_alaska] [table_alaska, notes_alaska] = Inr [record_alaska]"
    by code_simp
  have l: "0 < length [record_alaska]" by simp
  note w = parse_record_keys[OF e l, unfolded nth_Cons_0 mult_0_right]
  from e w show ?thesis by blast
qed

text \<open>
  One result set with two records. The first has the key \<open>County\<close>, which is no schema
  title, so the two key sets differ; the second has exactly the schema titles as keys,
  with \<open>Statute\<close> before \<open>Type\<close>, which is not the schema's order.
\<close>

theorem parse_keys_not_schema_order:
  "map_sum id (map keys)
     (parse KEY_TITLE [heading_alabama, heading_alaska]
        [table_alabama, notes_alabama, table_alaska, notes_alaska]) =
     Inr [[''State'', ''Frequency'', ''Bidding process'', ''County'', ''Description'',
           ''Type'', ''Interest rate / penalty'', ''Redemption period'', ''Online auction'',
           ''Over the counter'', ''Statute'', ''Notes''],
          [''State'', ''Statute'', ''Type'', ''Description'', ''Bidding process'',
           ''Frequency'', ''Interest rate / penalty'', ''Redemption period'',
           ''Online auction'', ''Over the counter'', ''Notes'']] \<and>
   titles KEY_TITLE =
     [''State'', ''Type'', ''Bidding process'', ''Frequency'', ''Interest rate / penalty'',
      ''Redemption period'', ''Online auction'', ''Over the counter'', ''Statute'',
      ''Notes'', ''Description''] \<and>
   ''County'' \<notin> set (titles KEY_TITLE)"
  by code_simp

text \<open>
  C3. One heading and a single content node, a table without its notes: the node is
  paired with \<open>None\<close>, and \<open>parse\<close> raises \<open>AttributeError\<close> at \<open>notes.get_text()\<close>
  instead of returning a record with an empty description.
\<close>

theorem parse_unpaired_node_raises:
  "zip_longest_shared [table_alabama] = [(table_alabama, None)] \<and>
   parse KEY_TITLE [heading_alabama] [table_alabama] = Inl AttributeError"
  by code_simp




section \<open>Properties of the theme patch\<close>

subsection \<open>Replacing tokens\<close>

lemma led_by_v_Cons: "led_by_v t \<Longrightarrow> \<exists>t'. t = CHR ''v'' # t' \<and> CHR ''v'' \<notin> set t'"
  by (auto simp: led_by_v_def split: list.splits)

lemma prefix_same_length: "prefix q (new @ t) \<Longrightarrow> length q = length new \<Longrightarrow> q = new"
  by (metis append_eq_append_conv prefix_def)

lemma replace_from_miss:
  "\<not> (old \<noteq> [] \<and> prefix old (c # cs)) \<Longrightarrow>
     replace_from old new (c # cs) = c # replace_from old new cs"
  by auto

lemma replace_from_absent: "\<not> sublist old s \<Longrightarrow> replace_from old new s = s"
proof (induction old new s rule: replace_from.induct)
  case (1 old new)
  then show ?case by simp
next
  case (2 old new c cs)
  from "2.prems" have np: "\<not> prefix old (c # cs)" and ns: "\<not> sublist old cs"
    by (simp_all add: sublist_Cons_right)
  with "2.IH"(2) show ?case by simp
qed

lemma prefix_replace_from_no_v:
  "led_by_v new \<Longrightarrow> CHR ''v'' \<notin> set w \<Longrightarrow> prefix w (replace_from old new s)
     \<Longrightarrow> prefix w s"
proof (induction old new s arbitrary: w rule: replace_from.induct)
  case (1 old new)
  then show ?case by simp
next
  case (2 old new c cs)
  show ?case
  proof (cases w)
    case Nil
    then show ?thesis by simp
  next
    case (Cons a w')
    show ?thesis
    proof (cases "old \<noteq> [] \<and> prefix old (c # cs)")
      case True
      from led_by_v_Cons[OF "2.prems"(1)] obtain new' where "new = CHR ''v'' # new'"
        by blast
      with True "2.prems"(3) Cons have "a = CHR ''v''" by simp
      with "2.prems"(2) Cons show ?thesis by simp
    next
      case False
      with "2.prems"(3) Cons have a: "a = c" and p: "prefix w' (replace_from old new cs)"
        by auto
      from "2.prems"(2) Cons have "CHR ''v'' \<notin> set w'" by simp
      from "2.IH"(2)[OF False "2.prems"(1) this p] a Cons show ?thesis by simp
    qed
  qed
qed

lemma prefix_replace_from:
  assumes q: "led_by_v q" and new: "led_by_v new" and len: "length q = length new"
    and pre: "prefix q (replace_from old new s)"
  shows "prefix q s \<or> q = new"
proof (cases s)
  case Nil
  with pre q show ?thesis by (simp add: led_by_v_def)
next
  case (Cons c cs)
  show ?thesis
  proof (cases "old \<noteq> [] \<and> prefix old (c # cs)")
    case True
    with pre Cons have "prefix q (new @ replace_from old new (drop (length old) (c # cs)))"
      by simp
    from prefix_same_length[OF this len] show ?thesis ..
  next
    case False
    from led_by_v_Cons[OF q] obtain q' where q': "q = CHR ''v'' # q'" "CHR ''v'' \<notin> set q'"
      by blast
    from False pre Cons q' have c: "c = CHR ''v''" and p: "prefix q' (replace_from old new cs)"
      by auto
    from prefix_replace_from_no_v[OF new q'(2) p] have "prefix q' cs" .
    with c q' Cons show ?thesis by simp
  qed
qed

lemma sublist_skip_no_v:
  assumes "led_by_v q"
  shows "CHR ''v'' \<notin> set w \<Longrightarrow> sublist q (w @ u) \<Longrightarrow> sublist q u"
proof (induction w)
  case Nil
  then show ?case by simp
next
  case (Cons a w)
  from led_by_v_Cons[OF assms] obtain q' where q': "q = CHR ''v'' # q'" by blast
  from Cons.prems(1) have a: "a \<noteq> CHR ''v''" and w: "CHR ''v'' \<notin> set w" by auto
  from Cons.prems(2) have "prefix q (a # w @ u) \<or> sublist q (w @ u)"
    by (simp add: sublist_Cons_right)
  with a q' have "sublist q (w @ u)" by auto
  with Cons.IH[OF w] show ?case .
qed

lemma sublist_after_token:
  assumes q: "led_by_v q" and new: "led_by_v new" and len: "length q = length new"
    and sub: "sublist q (new @ t)"
  shows "q = new \<or> sublist q t"
proof -
  from led_by_v_Cons[OF new] obtain new' where
    n: "new = CHR ''v'' # new'" "CHR ''v'' \<notin> set new'"
    by blast
  from sub n have "prefix q (new @ t) \<or> sublist q (new' @ t)"
    by (simp add: sublist_Cons_right)
  then show ?thesis
  proof
    assume "prefix q (new @ t)"
    from prefix_same_length[OF this len] show ?thesis ..
  next
    assume "sublist q (new' @ t)"
    from sublist_skip_no_v[OF q n(2) this] show ?thesis ..
  qed
qed

lemma sublist_replace_from:
  assumes q: "led_by_v q"
  shows "led_by_v new \<Longrightarrow> length q = length new \<Longrightarrow> sublist q (replace_from old new s)
           \<Longrightarrow> sublist q s \<or> q = new"
proof (induction old new s rule: replace_from.induct)
  case (1 old new)
  with q show ?case by (simp add: led_by_v_def)
next
  case (2 old new c cs)
  show ?case
  proof (cases "old \<noteq> [] \<and> prefix old (c # cs)")
    case True
    with "2.prems"(3)
    have "sublist q (new @ replace_from old new (drop (length old) (c # cs)))" by simp
    from sublist_after_token[OF q "2.prems"(1,2) this]
    show ?thesis
    proof
      assume "q = new"
      then show ?thesis ..
    next
      assume "sublist q (replace_from old new (drop (length old) (c # cs)))"
      from "2.IH"(1)[OF True "2.prems"(1,2) this]
      show ?thesis
      proof
        assume "sublist q (drop (length old) (c # cs))"
        then have "sublist q (c # cs)"
          by (rule sublist_order.order.trans[OF _ sublist_drop])
        then show ?thesis ..
      next
        assume "q = new"
        then show ?thesis ..
      qed
    qed
  next
    case False
    from "2.prems"(3) have "sublist q (c # replace_from old new cs)"
      by (simp only: replace_from_miss[OF False])
    then have "prefix q (c # replace_from old new cs) \<or> sublist q (replace_from old new cs)"
      by (simp add: sublist_Cons_right)
    then show ?thesis
    proof
      assume "prefix q (c # replace_from old new cs)"
      then have "prefix q (replace_from old new (c # cs))"
        by (simp only: replace_from_miss[OF False])
      from prefix_replace_from[OF q "2.prems"(1,2) this] show ?thesis by auto
    next
      assume "sublist q (replace_from old new cs)"
      from "2.IH"(2)[OF False "2.prems"(1,2) this] show ?thesis
        by (auto simp: sublist_Cons_right)
    qed
  qed
qed

lemma replace_from_removes:
  "led_by_v old \<Longrightarrow> led_by_v new \<Longrightarrow> length old = length new \<Longrightarrow> old \<noteq> new
     \<Longrightarrow> \<not> sublist old (replace_from old new s)"
proof (induction old new s rule: replace_from.induct)
  case (1 old new)
  then show ?case by (auto simp: led_by_v_def)
next
  case (2 old new c cs)
  from "2.prems"(1) have ne: "old \<noteq> []" by (auto simp: led_by_v_def)
  show ?case
  proof (cases "old \<noteq> [] \<and> prefix old (c # cs)")
    case True
    show ?thesis
    proof
      assume "sublist old (replace_from old new (c # cs))"
      with True
      have "sublist old (new @ replace_from old new (drop (length old) (c # cs)))" by simp
      from sublist_after_token[OF "2.prems"(1,2,3) this] "2.prems"(4)
      have "sublist old (replace_from old new (drop (length old) (c # cs)))" by simp
      with "2.IH"(1)[OF True "2.prems"] show False ..
    qed
  next
    case False
    show ?thesis
    proof
      assume "sublist old (replace_from old new (c # cs))"
      then have "sublist old (c # replace_from old new cs)"
        by (simp only: replace_from_miss[OF False])
      then have "prefix old (c # replace_from old new cs) \<or>
                 sublist old (replace_from old new cs)"
        by (simp add: sublist_Cons_right)
      then show False
      proof
        assume "prefix old (c # replace_from old new cs)"
        then have "prefix old (replace_from old new (c # cs))"
          by (simp only: replace_from_miss[OF False])
        from prefix_replace_from[OF "2.prems"(1,2,3) this] "2.prems"(4) False ne
        show False by simp
      next
        assume "sublist old (replace_from old new cs)"
        with "2.IH"(2)[OF False "2.prems"] show False ..
      qed
    qed
  qed
qed

subsection \<open>Recolouring\<close>

lemma val_attr_led_by_v: "CHR ''v'' \<notin> set h \<Longrightarrow> led_by_v (val_attr h)"
  by (simp add: val_attr_def led_by_v_def)

lemma val_attr_inject: "val_attr h = val_attr h' \<longleftrightarrow> h = h'"
  by (simp add: val_attr_def)

lemma val_attr_not_Nil: "val_attr h \<noteq> []"
  by (simp add: val_attr_def)

lemma length_val_attr: "length (val_attr h) = length h + 6"
  by (simp add: val_attr_def)

lemma replace_val_attr:
  "replace (val_attr original) new s = replace_from (val_attr original) new s"
  by (simp add: replace_def val_attr_not_Nil)

lemma recolor_snoc:
  "recolor (cs @ [(original, replacement)]) xml =
     replace (val_attr original) (val_attr replacement) (recolor cs xml)"
  by (simp add: recolor_def)

lemma recolor_Cons:
  "recolor ((original, replacement) # cs) xml =
     recolor cs (replace (val_attr original) (val_attr replacement) xml)"
  by (simp add: recolor_def)

lemma hex_table_snoc:
  "hex_table (cs @ [(original, replacement)]) \<Longrightarrow>
     hex_table cs \<and> CHR ''v'' \<notin> set original \<and> CHR ''v'' \<notin> set replacement \<and>
     length original = 6 \<and> length replacement = 6 \<and> original \<noteq> replacement \<and>
     replacement \<notin> set (keys cs)"
  by (auto simp: hex_table_def keys_def values_of_def list_all_iff)

lemma hex_table_key:
  "hex_table cs \<Longrightarrow> original \<in> set (keys cs) \<Longrightarrow>
     CHR ''v'' \<notin> set original \<and> length original = 6"
  by (auto simp: hex_table_def keys_def list_all_iff)

text \<open>After the pass no original token is left.\<close>

lemma recolor_removes:
  "hex_table cs \<Longrightarrow> original \<in> set (keys cs)
     \<Longrightarrow> \<not> sublist (val_attr original) (recolor cs xml)"
proof (induction cs arbitrary: original rule: rev_induct)
  case Nil
  then show ?case by (simp add: keys_def)
next
  case (snoc p cs)
  obtain a r where p: "p = (a, r)" by (cases p)
  from hex_table_snoc[OF snoc.prems(1)[unfolded p]]
  have h: "hex_table cs" and va: "CHR ''v'' \<notin> set a" and vr: "CHR ''v'' \<notin> set r"
    and la6: "length a = 6" and lr6: "length r = 6" and ne: "a \<noteq> r"
    and r: "r \<notin> set (keys cs)"
    by blast+
  note la = val_attr_led_by_v[OF va] and lr = val_attr_led_by_v[OF vr]
  show ?case
  proof (cases "original = a")
    case True
    have len: "length (val_attr a) = length (val_attr r)"
      using la6 lr6 by (simp add: length_val_attr)
    from ne have "val_attr a \<noteq> val_attr r" by (simp add: val_attr_inject)
    from replace_from_removes[OF la lr len this] True p
    show ?thesis by (simp add: recolor_snoc replace_val_attr)
  next
    case False
    with snoc.prems(2) p have mem: "original \<in> set (keys cs)" by (simp add: keys_def)
    from hex_table_key[OF h mem] have vo: "CHR ''v'' \<notin> set original"
      and lo6: "length original = 6" by blast+
    have len: "length (val_attr original) = length (val_attr r)"
      using lo6 lr6 by (simp add: length_val_attr)
    from mem r have "original \<noteq> r" by blast
    then have neq: "val_attr original \<noteq> val_attr r" by (simp add: val_attr_inject)
    have "\<not> sublist (val_attr original)
             (replace_from (val_attr a) (val_attr r) (recolor cs xml))"
    proof
      assume "sublist (val_attr original)
                (replace_from (val_attr a) (val_attr r) (recolor cs xml))"
      from sublist_replace_from[OF val_attr_led_by_v[OF vo] lr len this] neq
      have "sublist (val_attr original) (recolor cs xml)" by simp
      with snoc.IH[OF h mem] show False ..
    qed
    then show ?thesis using p by (simp add: recolor_snoc replace_val_attr)
  qed
qed

text \<open>A text without original tokens is left as it is.\<close>

lemma recolor_fixed:
  "(\<And>original. original \<in> set (keys cs) \<Longrightarrow> \<not> sublist (val_attr original) xml)
     \<Longrightarrow> recolor cs xml = xml"
proof (induction cs)
  case Nil
  then show ?case by (simp add: recolor_def)
next
  case (Cons p cs)
  obtain a r where p: "p = (a, r)" by (cases p)
  from Cons.prems[of a] p have "\<not> sublist (val_attr a) xml" by (simp add: keys_def)
  then have same: "replace (val_attr a) (val_attr r) xml = xml"
    by (simp add: replace_val_attr replace_from_absent)
  have "recolor cs xml = xml"
    by (rule Cons.IH) (simp add: Cons.prems keys_def)
  with same p show ?case by (simp add: recolor_Cons)
qed

lemma recolor_idempotent:
  assumes "hex_table cs"
  shows "recolor cs (recolor cs xml) = recolor cs xml"
  by (rule recolor_fixed) (rule recolor_removes[OF assms])

lemma hex_table_color: "hex_table color"
  by (simp add: hex_table_def color_def keys_def values_of_def)

subsection \<open>The process\<close>

lemma theme_state_update_theme:
  "theme_state (update_theme p) = (recolor color (theme_xml p), recolor color (theme_xml p))"
  by (simp add: theme_state_def update_theme_def Let_def)

lemma init_controller_updated: "was_theme_updated p \<Longrightarrow> init_controller p = p"
  by (simp add: init_controller_def)

lemma init_controller_first:
  "init_controller (initial_process xml) =
     (update_theme (initial_process xml))\<lparr>was_theme_updated := True\<rparr>"
  by (simp add: init_controller_def initial_process_def)

lemma init_controller_funpow:
  "(init_controller ^^ Suc n) (initial_process xml) =
     (update_theme (initial_process xml))\<lparr>was_theme_updated := True\<rparr>"
proof (induction n)
  case 0
  then show ?case by (simp add: init_controller_first)
next
  case (Suc n)
  have "(init_controller ^^ Suc (Suc n)) (initial_process xml) =
          init_controller ((init_controller ^^ Suc n) (initial_process xml))"
    by simp
  also have "\<dots> = init_controller ((update_theme (initial_process xml))\<lparr>was_theme_updated := True\<rparr>)"
    by (simp only: Suc.IH)
  also have "\<dots> = (update_theme (initial_process xml))\<lparr>was_theme_updated := True\<rparr>"
    by (rule init_controller_updated) simp
  finally show ?case .
qed

text \<open>
  C6. The patch is idempotent: \<open>update_theme\<close> run twice leaves the two theme globals
  as one run does, from any state of them, the library's template included. And the
  flag lets the body run at most once: after any number of constructions of a
  \<open>WorkbookController\<close> in a process the body has run at most once, and after at least
  one construction the theme is the one a single run gives.
\<close>

theorem update_theme_idempotent_once:
  "theme_state (update_theme (update_theme p)) = theme_state (update_theme p) \<and>
   update_theme_calls ((init_controller ^^ n) (initial_process xml)) = (if n = 0 then 0 else 1) \<and>
   theme_state ((init_controller ^^ Suc n) (initial_process xml)) =
     theme_state (update_theme (initial_process xml))"
proof (intro conjI)
  show "theme_state (update_theme (update_theme p)) = theme_state (update_theme p)"
    by (simp add: theme_state_def update_theme_def Let_def recolor_idempotent[OF hex_table_color])
  show "update_theme_calls ((init_controller ^^ n) (initial_process xml)) =
          (if n = 0 then 0 else 1)"
  proof (cases n)
    case 0
    then show ?thesis by (simp add: initial_process_def)
  next
    case (Suc m)
    then show ?thesis
      by (simp only: init_controller_funpow)
         (simp add: update_theme_def Let_def initial_process_def)
  qed
  show "theme_state ((init_controller ^^ Suc n) (initial_process xml)) =
          theme_state (update_theme (initial_process xml))"
    by (simp only: init_controller_funpow) (simp add: theme_state_def)
qed

text \<open>
  On a fragment of a theme with an original colour and an unlisted one, one run and two
  runs both give the fragment with the first colour replaced.
\<close>

lemma update_theme_example:
  "theme_xml (update_theme (update_theme (initial_process
     (val_attr ''1F497D'' @ '' '' @ val_attr ''FFFFFF'' @ '' '' @ val_attr ''800080'')))) =
   val_attr ''44546A'' @ '' '' @ val_attr ''FFFFFF'' @ '' '' @ val_attr ''954F72''"
  by code_simp

section \<open>Properties of the container repair\<close>

lemma copy_entries_eq:
  "copy_entries z names buffer =
     Inr (buffer @ concat (map (\<lambda>n. case map_of (rev z) n of None \<Rightarrow> [] | Some d \<Rightarrow> [(n, d)])
                            names))"
  by (induction names arbitrary: buffer) (auto simp: zip_open_def split: option.splits)

lemma lookup_is_filter:
  "distinct (map fst z) \<Longrightarrow>
     (case map_of (rev z) n of None \<Rightarrow> [] | Some d \<Rightarrow> [(n, d)]) = filter (\<lambda>e. fst e = n) z"
proof (induction z)
  case Nil
  then show ?case by simp
next
  case (Cons p z)
  obtain k v where p: "p = (k, v)" by (cases p)
  from Cons.prems p have k: "k \<notin> fst ` set z" and d: "distinct (map fst z)" by auto
  from k have none: "map_of (rev z) k = None"
    by (simp add: map_of_eq_None_iff)
  from k have nofilter: "filter (\<lambda>e. fst e = k) z = []"
    by (auto simp: filter_empty_conv)
  show ?case
  proof (cases "n = k")
    case True
    then show ?thesis using p none nofilter by (simp add: map_add_def)
  next
    case False
    then show ?thesis using p Cons.IH[OF d] by (simp add: map_add_def split: option.splits)
  qed
qed

lemma concat_filters_by_name:
  "distinct (map fst z) \<Longrightarrow>
     concat (map (\<lambda>n. filter (\<lambda>e. fst e = n) z) (filter P (map fst z))) =
       filter (\<lambda>e. P (fst e)) z"
proof (induction z)
  case Nil
  then show ?case by simp
next
  case (Cons p z)
  obtain k v where p: "p = (k, v)" by (cases p)
  from Cons.prems p have k: "k \<notin> fst ` set z" and d: "distinct (map fst z)" by auto
  from k have nofilter: "filter (\<lambda>e. fst e = k) z = []"
    by (auto simp: filter_empty_conv)
  have others: "map (\<lambda>n. filter (\<lambda>e. fst e = n) (p # z)) (filter P (map fst z)) =
                map (\<lambda>n. filter (\<lambda>e. fst e = n) z) (filter P (map fst z))"
    using k p by (intro map_cong refl) auto
  have "concat (map (\<lambda>n. filter (\<lambda>e. fst e = n) (p # z)) (filter P (map fst (p # z)))) =
          (if P k then [p] else []) @
          concat (map (\<lambda>n. filter (\<lambda>e. fst e = n) (p # z)) (filter P (map fst z)))"
    using p nofilter by simp
  also have "\<dots> = (if P k then [p] else []) @
          concat (map (\<lambda>n. filter (\<lambda>e. fst e = n) z) (filter P (map fst z)))"
    by (simp only: others)
  also have "\<dots> = filter (\<lambda>e. P (fst e)) (p # z)"
    using p Cons.IH[OF d] by simp
  finally show ?case .
qed

text \<open>What the function returns for any archive: it never raises.\<close>

lemma fix_workbook_mime_type_eq:
  "fix_workbook_mime_type z =
     Inr (concat (map (\<lambda>n. case map_of (rev z) n of None \<Rightarrow> [] | Some d \<Rightarrow> [(n, d)])
            (FIRST_NAMES @ filter (\<lambda>name. name \<notin> set FIRST_NAMES) (namelist z))))"
  by (simp add: fix_workbook_mime_type_def Let_def copy_entries_eq)

text \<open>
  C9, as the code has it. For an archive whose entry names are distinct, the result is
  the archive with the entries of \<open>FIRST_NAMES\<close> moved to the front in that order, those
  the archive lacks being skipped, and all other entries after them in their order, with
  their bytes; no exception is raised.
\<close>

theorem fix_workbook_mime_type_distinct_names:
  assumes "distinct (namelist z)"
  shows "fix_workbook_mime_type z = Inr (moved_to_front z)"
proof -
  from assms have d: "distinct (map fst z)" by (simp add: namelist_def)
  have "concat (map (\<lambda>n. case map_of (rev z) n of None \<Rightarrow> [] | Some d \<Rightarrow> [(n, d)])
            (FIRST_NAMES @ filter (\<lambda>name. name \<notin> set FIRST_NAMES) (namelist z))) =
        concat (map (\<lambda>n. filter (\<lambda>e. fst e = n) z)
            (FIRST_NAMES @ filter (\<lambda>name. name \<notin> set FIRST_NAMES) (map fst z)))"
    by (simp only: lookup_is_filter[OF d] namelist_def)
  also have "\<dots> = concat (map (entries_named z) FIRST_NAMES) @
                   filter (\<lambda>e. fst e \<notin> set FIRST_NAMES) z"
    using concat_filters_by_name[OF d, of "\<lambda>name. name \<notin> set FIRST_NAMES"]
    by (simp add: entries_named_def[abs_def])
  finally show ?thesis
    by (simp add: fix_workbook_mime_type_eq moved_to_front_def)
qed

text \<open>
  An archive as the workbook library writes it, with the styles before the workbook
  descriptor and no content-type manifest last: the two entries present move to the
  front in the order of \<open>FIRST_NAMES\<close>.
\<close>

theorem fix_workbook_mime_type_distinct_names_witness:
  "fix_workbook_mime_type
     [(''docProps/app.xml'', ''a''), (''xl/styles.xml'', ''s''),
      (''xl/worksheets/sheet1.xml'', ''w''), (''xl/workbook.xml'', ''b'')] =
   Inr [(''xl/workbook.xml'', ''b''), (''xl/styles.xml'', ''s''),
        (''docProps/app.xml'', ''a''), (''xl/worksheets/sheet1.xml'', ''w'')]"
proof -
  have d: "distinct (namelist
     [(''docProps/app.xml'', ''a''), (''xl/styles.xml'', ''s''),
      (''xl/worksheets/sheet1.xml'', ''w''), (''xl/workbook.xml'', ''b'')])"
    by (simp add: namelist_def)
  have m: "moved_to_front
     [(''docProps/app.xml'', ''a''), (''xl/styles.xml'', ''s''),
      (''xl/worksheets/sheet1.xml'', ''w''), (''xl/workbook.xml'', ''b'')] =
     [(''xl/workbook.xml'', ''b''), (''xl/styles.xml'', ''s''),
        (''docProps/app.xml'', ''a''), (''xl/worksheets/sheet1.xml'', ''w'')]"
    by code_simp
  from fix_workbook_mime_type_distinct_names[OF d] m show ?thesis by (simp only:)
qed

text \<open>
  An archive with two entries of one name: both copies in the result carry the bytes of
  the later entry, so the bytes of the first entry are not kept.
\<close>

theorem fix_workbook_mime_type_duplicate_names:
  "fix_workbook_mime_type
     [(''xl/media/image1.png'', ''first''), (''xl/media/image1.png'', ''second'')] =
   Inr [(''xl/media/image1.png'', ''second''), (''xl/media/image1.png'', ''second'')] \<and>
   moved_to_front
     [(''xl/media/image1.png'', ''first''), (''xl/media/image1.png'', ''second'')] =
   [(''xl/media/image1.png'', ''first''), (''xl/media/image1.png'', ''second'')]"
  by code_simp

section \<open>Properties of the workbook\<close>

subsection \<open>Values the value setter accepts\<close>



lemma check_string_illegal: "\<not> legal_text s \<Longrightarrow> check_string s = Inl IllegalCharacterError"
  by (simp add: check_string_def legal_text_def Let_def)



lemma sheet_cell_beyond: "1048576 < r \<Longrightarrow> sheet_cell r c sheet = Inl ValueError"
  by (simp add: sheet_cell_def get_cell_def)









subsection \<open>Cells written by the loops\<close>

lemma set_keys_dom: "set (keys d) = dom (map_of d)"
  by (simp add: keys_def dom_map_of_conv_image_fst)

lemma map_of_put_cell:
  "map_of (cells (put_cell r c v sheet)) =
     (map_of (cells sheet))((r, c) \<mapsto> typed_cell v (stored v))"
  by (simp add: put_cell_def add_cell_def Let_def setitem_def update_conv')

lemma current_row_put_cell:
  "rows_below sheet \<Longrightarrow> current_row (put_cell r c v sheet) = max r (current_row sheet)"
  by (auto simp: put_cell_def add_cell_def Let_def rows_below_def has_key_def list_all_iff)

lemma rows_below_put_cell:
  assumes "rows_below sheet"
  shows "rows_below (put_cell r c v sheet)"
proof -
  have cr: "current_row (put_cell r c v sheet) = max r (current_row sheet)"
    by (rule current_row_put_cell[OF assms])
  have d: "dom (map_of (cells (put_cell r c v sheet))) = insert (r, c) (dom (map_of (cells sheet)))"
    by (simp add: map_of_put_cell)
  from assms show ?thesis
    unfolding rows_below_def list_all_iff set_keys_dom cr d by (auto simp: le_max_iff_disj)
qed



lemma rows_below_put_row: "rows_below sheet \<Longrightarrow> rows_below (put_row r row c ks sheet)"
  by (induction ks arbitrary: c sheet) (simp_all add: rows_below_put_cell)




lemma rows_below_put_rows: "rows_below sheet \<Longrightarrow> rows_below (put_rows r rows ks sheet)"
  by (induction rows arbitrary: r sheet) (simp_all add: rows_below_put_row)




subsection \<open>The aggregate row and the table columns\<close>












subsection \<open>Column sizing\<close>







subsection \<open>The sheet after the data and the aggregate row\<close>










subsection \<open>\<open>create_workbook\<close> step by step\<close>






subsection \<open>When \<open>create_workbook\<close> returns\<close>




















subsection \<open>The claims about \<open>create_workbook\<close>\<close>









end
